theory Spec2Isabelle
  imports Complex_Main "HOL-Library.Monad_Syntax"
begin

section \<open>Data model of \<^verbatim>\<open>src/base.js\<close>\<close>

text \<open>
  JavaScript numbers are modelled as \<^typ>\<open>real\<close> (no rounding, no NaN), strings as
  \<^typ>\<open>string\<close> whose elements stand for the code units that \<^verbatim>\<open>text[k]\<close>,
  \<^verbatim>\<open>length\<close> and \<^verbatim>\<open>substr\<close> count. Everything that three.js and
  \<^verbatim>\<open>./utils\<close> build is kept as a symbolic value: a geometry is the term of the
  constructor calls that made it.
\<close>

type_synonym vec3 = "real \<times> real \<times> real"

text \<open>A \<^verbatim>\<open>Matrix4\<close> as \<^verbatim>\<open>updateMatrix\<close> composes it: from the position
  and the Euler rotation of the object (the scale is never changed from 1).\<close>

type_synonym matrix4 = "vec3 \<times> vec3"

datatype font = InterSemiBold | InterSemiBoldItalic | InterExtraBold | InterExtraBoldItalic

text \<open>The profiles of \<^verbatim>\<open>./utils\<close>: \<^verbatim>\<open>getRoundedRectShape(x, y, w, h, r)\<close> and
  \<^verbatim>\<open>getCustomRoundedRectShape(x, y, w, h, r1, r2, r3, r4)\<close>, kept with their arguments.\<close>

datatype shape =
    RoundedRectShape real real real real real
  | CustomRoundedRectShape real real real real real real real real

datatype material = MeshBasicMaterial nat

datatype geometry =
    BufferGeometry
  | ExtrudeGeometry "shape option" real
  | CylinderGeometry real real real nat
  | BoxGeometry real real real
  | TextGeometry string font real real
  | ApplyMatrix4 geometry matrix4
  | ToNonIndexed geometry
  | MergeGeometries "geometry list"
  | CSGGeometry string geometry matrix4 geometry matrix4

record mesh =
  geometry :: geometry
  material :: material
  position :: vec3
  rotation :: vec3
  matrix :: matrix4

definition identity4 :: matrix4 where
  "identity4 = ((0, 0, 0), (0, 0, 0))"

definition Mesh :: "geometry \<Rightarrow> material \<Rightarrow> mesh" where
  "Mesh g m = \<lparr>geometry = g, material = m, position = (0, 0, 0), rotation = (0, 0, 0),
     matrix = identity4\<rparr>"

definition updateMatrix :: "mesh \<Rightarrow> mesh" where
  "updateMatrix m = m\<lparr>matrix := (position m, rotation m)\<rparr>"

definition set_position_x :: "real \<Rightarrow> mesh \<Rightarrow> mesh" where
  "set_position_x v m = (case position m of (x, y, z) \<Rightarrow> m\<lparr>position := (v, y, z)\<rparr>)"

definition set_position_y :: "real \<Rightarrow> mesh \<Rightarrow> mesh" where
  "set_position_y v m = (case position m of (x, y, z) \<Rightarrow> m\<lparr>position := (x, v, z)\<rparr>)"

definition set_position_z :: "real \<Rightarrow> mesh \<Rightarrow> mesh" where
  "set_position_z v m = (case position m of (x, y, z) \<Rightarrow> m\<lparr>position := (x, y, v)\<rparr>)"

definition set_rotation_x :: "real \<Rightarrow> mesh \<Rightarrow> mesh" where
  "set_rotation_x v m = (case rotation m of (x, y, z) \<Rightarrow> m\<lparr>rotation := (v, y, z)\<rparr>)"


definition vx :: "vec3 \<Rightarrow> real" where "vx v = fst v"
definition vy :: "vec3 \<Rightarrow> real" where "vy v = fst (snd v)"
definition vz :: "vec3 \<Rightarrow> real" where "vz v = snd (snd v)"

text \<open>
  The collaborators that are not part of \<^verbatim>\<open>base.js\<close>: the bounding-box
  measurement and the boolean operations of \<^verbatim>\<open>./utils\<close>, and whether a geometry
  carries an index (\<^verbatim>\<open>geo.index !== null\<close>). They are parameters of the model.
\<close>

record collaborators =
  getBoundingBoxSize :: "mesh \<Rightarrow> vec3"
  subtractMesh :: "mesh \<Rightarrow> mesh \<Rightarrow> mesh"
  unionMesh :: "mesh \<Rightarrow> mesh \<Rightarrow> mesh"
  hasIndex :: "geometry \<Rightarrow> bool"

record base_options =
  width :: real
  height :: real
  depth :: real
  shape :: string
  cornerRadius :: real
  hasBorder :: bool
  borderWidth :: real
  borderDepth :: real
  textPlacement :: string
  textAlign :: string
  hasText :: bool
  textMessage :: string
  textSize :: real
  textDepth :: real
  textMargin :: real
  hasNfcIndentation :: bool
  nfcIndentationShape :: string
  nfcIndentationSize :: real
  nfcIndentationDepth :: real
  nfcIndentationHidden :: bool
  hasKeychainAttachment :: bool
  keychainHoleDiameter :: real
  keychainPlacement :: string
  mirrorHoles :: bool

record code_options =
  margin :: real
  invert :: bool

record options =
  base :: base_options
  code :: code_options
  baseColor :: "nat option"
  qrcodeColor :: "nat option"

text \<open>The object: \<^verbatim>\<open>this\<close>. \<^verbatim>\<open>exportedMeshes\<close> is a JavaScript object, kept
  as the list of its properties in insertion order.\<close>

record BaseTag3D =
  this_options :: options
  materialBase :: material
  materialDetail :: material
  availableWidth :: real
  baseMesh :: "mesh option"
  borderMesh :: "mesh option"
  subtitleMesh :: "mesh option"
  keychainAttachmentMesh :: "mesh option"
  combinedMesh :: "mesh option"
  exportedMeshes :: "(string \<times> mesh) list"

datatype error = TypeError

definition LINE_HEIGHT :: real where
  "LINE_HEIGHT = 3 / 2"

text \<open>The constructor (lines 16-47): the defaults \<^verbatim>\<open>0xffffff\<close> and
  \<^verbatim>\<open>0x000000\<close> stand where the caller gives no colour.\<close>

definition constructor :: "options \<Rightarrow> BaseTag3D" where
  "constructor opts =
     (let opts' = opts\<lparr>baseColor := Some (case baseColor opts of None \<Rightarrow> 16777215 | Some c \<Rightarrow> c),
                       qrcodeColor := Some (case qrcodeColor opts of None \<Rightarrow> 0 | Some c \<Rightarrow> c)\<rparr>;
          aw = width (base opts') - 2 * margin (code opts');
          aw' = (if hasBorder (base opts') then aw - 2 * borderWidth (base opts') else aw)
      in \<lparr>this_options = opts',
          materialBase = MeshBasicMaterial (the (baseColor opts')),
          materialDetail = MeshBasicMaterial (the (qrcodeColor opts')),
          availableWidth = aw',
          baseMesh = None, borderMesh = None, subtitleMesh = None,
          keychainAttachmentMesh = None, combinedMesh = None,
          exportedMeshes = []\<rparr>)"

section \<open>Strings and arrays as JavaScript has them\<close>

text \<open>\<^verbatim>\<open>s.substr(start, len)\<close> for \<^verbatim>\<open>start >= 0\<close>: a negative length gives
  the empty string, a length past the end stops at the end.\<close>

definition substr :: "string \<Rightarrow> int \<Rightarrow> int \<Rightarrow> string" where
  "substr s start len = take (nat len) (drop (nat start) s)"

text \<open>White space as \<^verbatim>\<open>trim\<close> sees it, among the code units below 256.\<close>

definition is_space :: "char \<Rightarrow> bool" where
  "is_space c = (of_char c \<in> {9, 10, 11, 12, 13, 32, 160 :: nat})"

definition trim :: "string \<Rightarrow> string" where
  "trim s = rev (dropWhile is_space (rev (dropWhile is_space s)))"

text \<open>\<^verbatim>\<open>s.split('\n')\<close>: always at least one piece.\<close>

fun split_nl :: "string \<Rightarrow> string list" where
  "split_nl [] = [[]]"
| "split_nl (c # cs) =
     (if c = CHR 0x0A then [] # split_nl cs
      else (case split_nl cs of [] \<Rightarrow> [[c]] | l # ls \<Rightarrow> (c # l) # ls))"

fun join_nl :: "string list \<Rightarrow> string" where
  "join_nl [] = []"
| "join_nl [l] = l"
| "join_nl (l # ls) = l @ CHR 0x0A # join_nl ls"

text \<open>\<^verbatim>\<open>'*'.repeat(n)\<close>.\<close>

definition repeat_star :: "nat \<Rightarrow> string" where
  "repeat_star n = replicate n (CHR ''*'')"

text \<open>\<^verbatim>\<open>xs.splice(k, 0, v)\<close>: insert before index k, at the end when k is past it.\<close>

definition splice_insert :: "nat \<Rightarrow> 'a \<Rightarrow> 'a list \<Rightarrow> 'a list" where
  "splice_insert k v xs = take k xs @ v # drop k xs"

text \<open>Reading \<^verbatim>\<open>textLines[k]\<close> inside a string concatenation: past the end
  the value is \<^verbatim>\<open>undefined\<close>, which concatenates as that word.\<close>

definition get_str :: "string list \<Rightarrow> nat \<Rightarrow> string" where
  "get_str xs k = (if k < length xs then xs ! k else ''undefined'')"

text \<open>Writing \<^verbatim>\<open>textLines[k] = v\<close>: past the end the array grows; the holes
  in between join as empty strings.\<close>

definition set_str :: "string list \<Rightarrow> nat \<Rightarrow> string \<Rightarrow> string list" where
  "set_str xs k v = (if k < length xs then xs[k := v] else xs @ replicate (k - length xs) [] @ [v])"

text \<open>\<^verbatim>\<open>text[text.length - 1]\<close> used as a string: of the empty string it is
  \<^verbatim>\<open>undefined\<close>.\<close>

definition last_char :: "string \<Rightarrow> string" where
  "last_char t = (if t = [] then ''undefined'' else [last t])"

section \<open>The text layout of \<^verbatim>\<open>getSubtitleMesh\<close>\<close>

text \<open>Lines 155-162 (and 497-504): the emphasis markers. The loop condition reads
  \<^verbatim>\<open>text[0]\<close> and \<^verbatim>\<open>text[text.length - 1]\<close>, both \<^verbatim>\<open>undefined\<close> on the
  empty string.\<close>

definition emph_marked :: "string \<Rightarrow> bool" where
  "emph_marked t = (t \<noteq> [] \<and> hd t = CHR ''*'' \<and> last t = CHR ''*'')"

function strip_emph :: "string \<Rightarrow> nat \<Rightarrow> string \<times> nat" where
  "strip_emph t emphLevel =
     (if emph_marked t
      then (let t' = substr t 1 (int (length t) - 2); e' = emphLevel + 1
            in if e' = 3 then (t', e') else strip_emph t' e')
      else (t, emphLevel))"
  by pat_completeness auto
termination
  by (relation "measure (\<lambda>(t, e). length t)")
    (auto simp: substr_def emph_marked_def neq_Nil_conv)

declare strip_emph.simps [simp del]

definition fonts :: "font list" where
  "fonts = [InterSemiBold, InterSemiBoldItalic, InterExtraBold, InterExtraBoldItalic]"


abbreviation opt_base :: "BaseTag3D \<Rightarrow> base_options" where
  "opt_base this \<equiv> base (this_options this)"

text \<open>Lines 170-175 (and 231-236): the mesh of one candidate text, whose bounding box
  is the measurement.\<close>

definition text_mesh :: "BaseTag3D \<Rightarrow> nat \<Rightarrow> string \<Rightarrow> mesh" where
  "text_mesh this emphLevel t =
     Mesh (TextGeometry t (fonts ! emphLevel) (textSize (opt_base this)) (textDepth (opt_base this)))
          (materialDetail this)"

section \<open>The layout calculator\<close>

definition getCornerRadius :: "BaseTag3D \<Rightarrow> real" where
  "getCornerRadius this =
     (if shape (opt_base this) = ''roundedRectangle'' then cornerRadius (opt_base this) else 0)"

text \<open>Lines 495-521: the loop of \<^verbatim>\<open>getTextRenderWidth\<close> over the lines, always
  measured in the plain font.\<close>

fun render_width_loop :: "collaborators \<Rightarrow> BaseTag3D \<Rightarrow> string list \<Rightarrow> real \<Rightarrow> real" where
  "render_width_loop u this [] maxWidth = maxWidth"
| "render_width_loop u this (l # ls) maxWidth =
     (case strip_emph l 0 of (t, emphLevel) \<Rightarrow>
        (let m = Mesh (TextGeometry t InterSemiBold (textSize (opt_base this))
                         (textDepth (opt_base this))) (materialDetail this);
             tSize = getBoundingBoxSize u m
         in render_width_loop u this ls (if vx tSize > maxWidth then vx tSize else maxWidth)))"

definition getTextRenderWidth :: "collaborators \<Rightarrow> BaseTag3D \<Rightarrow> real" where
  "getTextRenderWidth u this =
     (if \<not> hasText (opt_base this) then 0
      else render_width_loop u this (split_nl (trim (textMessage (opt_base this)))) 0)"

definition getTextBaseOffset :: "collaborators \<Rightarrow> BaseTag3D \<Rightarrow> real" where
  "getTextBaseOffset u this =
     (if hasText (opt_base this) then
        (if textPlacement (opt_base this) = ''top'' \<or> textPlacement (opt_base this) = ''bottom''
         then (let numLines = length (split_nl (trim (textMessage (opt_base this))))
               in textSize (opt_base this) * real numLines * LINE_HEIGHT
                    + 2 * textMargin (opt_base this))
         else if textPlacement (opt_base this) = ''left''
         then getTextRenderWidth u this + 2 * textMargin (opt_base this)
         else if textPlacement (opt_base this) = ''right''
         then getTextRenderWidth u this + 2 * textMargin (opt_base this)
         else 0)
      else 0)"

definition getTextTopOffset :: "collaborators \<Rightarrow> BaseTag3D \<Rightarrow> real" where
  "getTextTopOffset u this =
     (if textPlacement (opt_base this) = ''top'' then 2 * getTextBaseOffset u this - 1 / 10 else 0)"

definition getTextLeftOffset :: "collaborators \<Rightarrow> BaseTag3D \<Rightarrow> real" where
  "getTextLeftOffset u this =
     (if textPlacement (opt_base this) = ''left'' then 2 * getTextBaseOffset u this
      else if textPlacement (opt_base this) = ''right'' then 0
      else 0)"

section \<open>The wrap loop\<close>

text \<open>The variables the do-while loop of lines 169-190 changes.\<close>

record wrap_vars =
  wv_text :: string
  wv_textLines :: "string list"
  wv_numLines :: nat
  wv_newLineCreated :: bool

text \<open>Lines 180-188: the text is too wide, so its last character moves to the line
  after line i.\<close>

definition snip :: "nat \<Rightarrow> wrap_vars \<Rightarrow> wrap_vars" where
  "snip i v =
     (let lastChar = last_char (wv_text v);
          t' = substr (wv_text v) 0 (int (length (wv_text v)) - 1)
      in if \<not> wv_newLineCreated v
         then v\<lparr>wv_text := t',
                wv_textLines := splice_insert (i + 1) lastChar (wv_textLines v),
                wv_numLines := wv_numLines v + 1,
                wv_newLineCreated := True\<rparr>
         else v\<lparr>wv_text := t',
                wv_textLines := set_str (wv_textLines v) (i + 1)
                                  (lastChar @ get_str (wv_textLines v) (i + 1)),
                wv_newLineCreated := True\<rparr>)"

text \<open>The measured width of a candidate text at an emphasis level.\<close>

definition measured_width :: "collaborators \<Rightarrow> BaseTag3D \<Rightarrow> nat \<Rightarrow> string \<Rightarrow> real" where
  "measured_width u this emphLevel t = vx (getBoundingBoxSize u (text_mesh this emphLevel t))"

text \<open>Lines 169-190. The loop leaves with the variables, the last mesh and its size; a
  loop that never leaves has no value.\<close>

partial_function (option) wrap_loop ::
  "collaborators \<Rightarrow> BaseTag3D \<Rightarrow> nat \<Rightarrow> nat \<Rightarrow> wrap_vars \<Rightarrow> (wrap_vars \<times> mesh \<times> vec3) option"
where
  "wrap_loop u this emphLevel i v =
     (let m = text_mesh this emphLevel (wv_text v);
          tSize = getBoundingBoxSize u m
      in if vx tSize > availableWidth this
         then wrap_loop u this emphLevel i (snip i v)
         else Some (v, m, tSize))"

text \<open>Lines 166-227: one line under the placements top, bottom and center.\<close>

definition line_top_bottom ::
  "collaborators \<Rightarrow> BaseTag3D \<Rightarrow> nat \<Rightarrow> string \<Rightarrow> nat \<Rightarrow> string list \<Rightarrow> nat
     \<Rightarrow> (string list \<times> nat \<times> mesh) option"
where
  "line_top_bottom u this i t emphLevel textLines numLines =
     Option.bind
       (wrap_loop u this emphLevel i
          \<lparr>wv_text = t, wv_textLines = textLines, wv_numLines = numLines,
           wv_newLineCreated = False\<rparr>)
       (\<lambda>(v, m, tSize).
          (let b = opt_base this;
               textLines' =
                 (if wv_newLineCreated v
                  then set_str (wv_textLines v) (i + 1)
                         (repeat_star emphLevel @ get_str (wv_textLines v) (i + 1)
                            @ repeat_star emphLevel)
                  else wv_textLines v);
               numLines' = wv_numLines v;
               topSide = - height b / 2 - textMargin b - textSize b * real i * LINE_HEIGHT;
               bottomSide = height b / 2 + textMargin b + textSize b * (real i + 1) * LINE_HEIGHT
                              - (if hasBorder b then borderWidth b else 0);
               center = (if numLines' > 1 then - real numLines' * (textSize b / 2) else 0)
                          + textSize b / 2 + textSize b * real i * LINE_HEIGHT;
               placement = (if textPlacement b = ''top'' then topSide
                            else if textPlacement b = ''center'' then center
                            else bottomSide);
               alignment =
                 (if textAlign b = ''left'' then - availableWidth this / 2 + textMargin b
                  else if textAlign b = ''center'' then - vx tSize / 2
                  else if textAlign b = ''right''
                  then - vx tSize + availableWidth this / 2 - textMargin b
                  else - vx tSize / 2)
           in Some (textLines', numLines', m\<lparr>position := (placement, alignment, depth b)\<rparr>)))"

text \<open>Lines 228-263: one line under the placements left and right; no wrapping.\<close>

definition line_left_right ::
  "collaborators \<Rightarrow> BaseTag3D \<Rightarrow> nat \<Rightarrow> string \<Rightarrow> nat \<Rightarrow> nat \<Rightarrow> mesh"
where
  "line_left_right u this i t emphLevel numLines =
     (let b = opt_base this;
          maxTextWidth = getTextRenderWidth u this + 2 * textMargin b;
          m = text_mesh this emphLevel t;
          tSize = getBoundingBoxSize u m;
          leftSide = - width b / 2 - vx tSize - (maxTextWidth - vx tSize) / 2
                       + (if hasBorder b then borderWidth b else 0);
          rightSide = width b / 2 + (maxTextWidth - vx tSize) / 2
                        - (if hasBorder b then borderWidth b else 0);
          side = (if textPlacement b = ''left'' then leftSide else rightSide);
          alignment =
            (if textAlign b = ''left''
             then - height b / 2 + textMargin b + textSize b * (real i + 1) * LINE_HEIGHT
             else if textAlign b = ''right''
             then height b / 2 - textMargin b - textSize b * (real numLines - real i) * LINE_HEIGHT
                    + textSize b
             else (if numLines = 1 then textSize b / 2
                   else textSize b * (real i + 1) * LINE_HEIGHT
                          - (real numLines * (textSize b * LINE_HEIGHT)) / 2))
      in m\<lparr>position := (alignment, side, depth b)\<rparr>)"

text \<open>Lines 265-281: the line's mesh is turned, its matrix baked into a copy of its
  geometry, and the copy merged into the label's geometry. A fresh
  \<^verbatim>\<open>BufferGeometry\<close> has no position attribute; every text geometry has one.\<close>

definition merge_line :: "collaborators \<Rightarrow> geometry \<Rightarrow> mesh \<Rightarrow> geometry" where
  "merge_line u textGeometry m =
     (let m' = updateMatrix (m\<lparr>rotation := (0, 0, pi / 2)\<rparr>);
          tempGeometry = ApplyMatrix4 (geometry m') (matrix m')
      in if textGeometry = BufferGeometry then tempGeometry
         else (let geo1 = (if hasIndex u textGeometry then ToNonIndexed textGeometry
                           else textGeometry);
                   geo2 = (if hasIndex u tempGeometry then ToNonIndexed tempGeometry
                           else tempGeometry)
               in MergeGeometries [geo1, geo2]))"

text \<open>Lines 153-282: the loop over the lines, from line i on. \<^verbatim>\<open>numLines\<close> grows
  with every line the wrap loop creates, so the loop has no bound of its own. Under a
  placement that is none of the five, \<^verbatim>\<open>subtitleMesh\<close> is still
  \<^verbatim>\<open>null\<close> at line 265 and the call throws.\<close>

partial_function (option) subtitle_lines ::
  "collaborators \<Rightarrow> BaseTag3D \<Rightarrow> nat \<Rightarrow> string list \<Rightarrow> nat \<Rightarrow> geometry
     \<Rightarrow> (error + string list \<times> geometry) option"
where
  "subtitle_lines u this i textLines numLines textGeometry =
     (if i < numLines then
        (if i < length textLines then
           (case strip_emph (textLines ! i) 0 of (t, emphLevel) \<Rightarrow>
              if textPlacement (opt_base this) = ''top''
                 \<or> textPlacement (opt_base this) = ''bottom''
                 \<or> textPlacement (opt_base this) = ''center''
              then Option.bind (line_top_bottom u this i t emphLevel textLines numLines)
                     (\<lambda>(textLines', numLines', m).
                        subtitle_lines u this (i + 1) textLines' numLines'
                          (merge_line u textGeometry m))
              else if textPlacement (opt_base this) = ''left''
                      \<or> textPlacement (opt_base this) = ''right''
              then subtitle_lines u this (i + 1) textLines numLines
                     (merge_line u textGeometry (line_left_right u this i t emphLevel numLines))
              else Some (Inl TypeError))
         else Some (Inl TypeError))
      else Some (Inr (textLines, textGeometry)))"

text \<open>Lines 140-286. The message of the options is rewritten at the end.\<close>

definition getSubtitleMesh ::
  "collaborators \<Rightarrow> BaseTag3D \<Rightarrow> (error + mesh \<times> BaseTag3D) option"
where
  "getSubtitleMesh u this =
     (let textLines = split_nl (trim (textMessage (opt_base this)))
      in Option.bind (subtitle_lines u this 0 textLines (length textLines) BufferGeometry)
           (\<lambda>r. case r of
                   Inl e \<Rightarrow> Some (Inl e)
                 | Inr (textLines', textGeometry) \<Rightarrow>
                     Some (Inr (Mesh textGeometry (materialDetail this),
                                this\<lparr>this_options := (this_options this)
                                  \<lparr>base := (opt_base this)
                                     \<lparr>textMessage := join_nl textLines'\<rparr>\<rparr>\<rparr>))))"


section \<open>The solid composer\<close>

text \<open>Lines 54-101 of \<^verbatim>\<open>getBaseMesh\<close>: the plate. Under a placement that is
  none of the five no shape is built, and \<^verbatim>\<open>ExtrudeGeometry\<close> gets
  \<^verbatim>\<open>undefined\<close>.\<close>

definition base_plate_mesh :: "collaborators \<Rightarrow> BaseTag3D \<Rightarrow> mesh" where
  "base_plate_mesh u this =
     (let b = opt_base this;
          cRadius = getCornerRadius this;
          textBaseOffset = getTextBaseOffset u this;
          isOffsetTopBottom = (textPlacement b = ''top'' \<or> textPlacement b = ''bottom''
                                 \<or> textPlacement b = ''center'');
          isOffsetLeftRight = (textPlacement b = ''left'' \<or> textPlacement b = ''right'');
          shp = (if isOffsetTopBottom
                 then Some (RoundedRectShape (- (height b + textBaseOffset) / 2) (- width b / 2)
                              (height b + textBaseOffset) (width b) cRadius)
                 else if isOffsetLeftRight
                 then Some (RoundedRectShape (- height b / 2) (- (width b + textBaseOffset) / 2)
                              (height b) (width b + textBaseOffset) cRadius)
                 else None);
          bMesh = (Mesh (ExtrudeGeometry shp (depth b)) (materialBase this))
                       \<lparr>position := (0, 0, 0)\<rparr>;
          plateMesh =
            (if textBaseOffset > 0 then
               (if textPlacement b = ''bottom'' then set_position_x (textBaseOffset / 2) bMesh
                else if textPlacement b = ''top'' then set_position_x (- textBaseOffset / 2) bMesh
                else if textPlacement b = ''center'' then set_position_x 0 bMesh
                else if textPlacement b = ''left'' then set_position_y (- textBaseOffset / 2) bMesh
                else if textPlacement b = ''right'' then set_position_y (textBaseOffset / 2) bMesh
                else bMesh)
             else bMesh)
      in updateMatrix plateMesh)"

text \<open>Lines 104-128: the solid of the NFC indentation, placed from the plate's mesh.\<close>

definition nfc_hole_mesh :: "BaseTag3D \<Rightarrow> mesh \<Rightarrow> mesh" where
  "nfc_hole_mesh this bMesh =
     (let b = opt_base this;
          holeMesh0 =
            (if nfcIndentationShape b = ''round''
             then set_rotation_x (- pi / 2)
                    (Mesh (CylinderGeometry (nfcIndentationSize b / 2) (nfcIndentationSize b / 2)
                             (nfcIndentationDepth b) 32) (materialBase this))
             else Mesh (BoxGeometry (nfcIndentationSize b) (nfcIndentationSize b)
                          (nfcIndentationDepth b)) (materialBase this));
          holeMesh1 = set_position_z (nfcIndentationDepth b / 2) holeMesh0;
          holeMesh2 = (if nfcIndentationHidden b
                       then set_position_z (vz (position holeMesh1) + 1) holeMesh1
                       else holeMesh1);
          holeMesh3 = set_position_x (vx (position bMesh)) holeMesh2
      in updateMatrix holeMesh3)"

definition getBaseMesh :: "collaborators \<Rightarrow> BaseTag3D \<Rightarrow> mesh" where
  "getBaseMesh u this =
     (let bMesh = base_plate_mesh u this
      in if hasNfcIndentation (opt_base this)
         then updateMatrix (subtractMesh u bMesh (nfc_hole_mesh this bMesh))
         else bMesh)"





section \<open>The assembler\<close>







section \<open>Reading a result\<close>

text \<open>The text geometries a geometry was merged from, in order: the lines of a label.\<close>

fun text_parts :: "geometry \<Rightarrow> geometry list" where
  "text_parts (TextGeometry t f s d) = [TextGeometry t f s d]"
| "text_parts (ApplyMatrix4 g m) = text_parts g"
| "text_parts (ToNonIndexed g) = text_parts g"
| "text_parts (MergeGeometries gs) = concat (map text_parts gs)"
| "text_parts _ = []"

text \<open>A text geometry fits when its mesh, measured as line 176 measures it, is no
  wider than the available width.\<close>

definition line_fits :: "collaborators \<Rightarrow> BaseTag3D \<Rightarrow> geometry \<Rightarrow> bool" where
  "line_fits u this g =
     (vx (getBoundingBoxSize u (Mesh g (materialDetail this))) \<le> availableWidth this)"


text \<open>
  The content region is the rectangle of \<^verbatim>\<open>base.height\<close> by \<^verbatim>\<open>base.width\<close>
  around the origin: the plate is built around the origin with the label's extent added
  to one side, and then moved by half that extent, so that the part without the label
  stays where it was. Its centre, in the plane of the plate:
\<close>

definition content_center :: "real \<times> real" where
  "content_center = (0, 0)"

definition position_xy :: "mesh \<Rightarrow> real \<times> real" where
  "position_xy m = (vx (position m), vy (position m))"

text \<open>What is left to do for the label loop at line i: the characters of the lines from
  i on, and one for each line.\<close>

definition rest_size :: "nat \<Rightarrow> string list \<Rightarrow> nat" where
  "rest_size i ls = sum_list (map (\<lambda>l. length l + 1) (drop i ls))"

section \<open>A sample configuration\<close>

text \<open>Stand-ins for the collaborators, for closed examples: a text is as wide as its
  number of characters times the font size, an extruded profile as large as its
  rectangle, and the boolean operations keep the first operand's placement.\<close>

definition sample_size :: "mesh \<Rightarrow> vec3" where
  "sample_size m =
     (case geometry m of
        TextGeometry t f s d \<Rightarrow> (real (length t) * s, s, d)
      | ExtrudeGeometry (Some (RoundedRectShape x y w h r)) d \<Rightarrow> (w, h, d)
      | _ \<Rightarrow> (0, 0, 0))"

definition sample_csg :: "string \<Rightarrow> mesh \<Rightarrow> mesh \<Rightarrow> mesh" where
  "sample_csg opn a b =
     a\<lparr>geometry := CSGGeometry opn (geometry a) (matrix a) (geometry b) (matrix b)\<rparr>"

definition sample_utils :: collaborators where
  "sample_utils =
     \<lparr>getBoundingBoxSize = sample_size,
      subtractMesh = sample_csg ''subtract'',
      unionMesh = sample_csg ''union'',
      hasIndex = (\<lambda>g. False)\<rparr>"

definition sample_base :: base_options where
  "sample_base =
     \<lparr>width = 13, height = 40, depth = 3, shape = ''roundedRectangle'', cornerRadius = 4,
      hasBorder = True, borderWidth = 3 / 2, borderDepth = 1,
      textPlacement = ''bottom'', textAlign = ''center'', hasText = True,
      textMessage = ''ab'', textSize = 4, textDepth = 1, textMargin = 2,
      hasNfcIndentation = True, nfcIndentationShape = ''round'', nfcIndentationSize = 25,
      nfcIndentationDepth = 1, nfcIndentationHidden = False,
      hasKeychainAttachment = True, keychainHoleDiameter = 4, keychainPlacement = ''left'',
      mirrorHoles = False\<rparr>"

definition sample_options :: options where
  "sample_options =
     \<lparr>base = sample_base, code = \<lparr>margin = 2, invert = False\<rparr>,
      baseColor = None, qrcodeColor = None\<rparr>"


definition sample_text_options :: "string \<Rightarrow> options" where
  "sample_text_options msg = sample_options\<lparr>base := sample_base\<lparr>textMessage := msg\<rparr>\<rparr>"

section \<open>Emphasis markers\<close>




lemma strip_emph_level_le:
  "e < 3 \<Longrightarrow> snd (strip_emph t e) \<le> 3"
proof (induction t e rule: strip_emph.induct)
  case (1 t emphLevel)
  show ?case
    using 1 by (subst strip_emph.simps) (auto simp: Let_def)
qed


lemma strip_emph_unmarked: "\<not> emph_marked t \<Longrightarrow> strip_emph t e = (t, e)"
  by (subst strip_emph.simps) simp



section \<open>The wrap loop: exits and results\<close>

lemma wrap_loop_fits:
  "measured_width u this e (wv_text v) \<le> availableWidth this \<Longrightarrow>
   wrap_loop u this e i v =
     Some (v, text_mesh this e (wv_text v), getBoundingBoxSize u (text_mesh this e (wv_text v)))"
  by (subst wrap_loop.simps) (simp add: measured_width_def Let_def)

lemma wrap_loop_over:
  "availableWidth this < measured_width u this e (wv_text v) \<Longrightarrow>
   wrap_loop u this e i v = wrap_loop u this e i (snip i v)"
  by (subst wrap_loop.simps) (simp add: measured_width_def Let_def)

lemma substr_butlast: "substr t 0 (int (length t) - 1) = butlast t"
  by (simp add: substr_def butlast_conv_take nat_diff_distrib')

lemma snip_alt:
  "snip i v =
     (if \<not> wv_newLineCreated v
      then v\<lparr>wv_text := butlast (wv_text v),
             wv_textLines := splice_insert (i + 1) (last_char (wv_text v)) (wv_textLines v),
             wv_numLines := wv_numLines v + 1,
             wv_newLineCreated := True\<rparr>
      else v\<lparr>wv_text := butlast (wv_text v),
             wv_textLines := set_str (wv_textLines v) (i + 1)
                               (last_char (wv_text v) @ get_str (wv_textLines v) (i + 1)),
             wv_newLineCreated := True\<rparr>)"
  by (simp add: snip_def Let_def substr_butlast)

lemma snip_text: "wv_text (snip i v) = butlast (wv_text v)"
  by (simp add: snip_alt)

lemma snip_text_length:
  "wv_text v \<noteq> [] \<Longrightarrow> length (wv_text (snip i v)) + 1 = length (wv_text v)"
  by (simp add: snip_text)


lemma wrap_loop_not_stuck:
  assumes "wrap_loop u this e i v = Some r"
  shows "\<not> (wv_text v = [] \<and> availableWidth this < measured_width u this e [])"
proof (rule wrap_loop.raw_induct
    [where P = "\<lambda>u this e i v r. \<not> (wv_text v = [] \<and> availableWidth this < measured_width u this e [])",
     OF _ assms])
  fix f u this e i v r
  assume IH: "\<And>u this e i v r. f u this e i v = Some r \<Longrightarrow>
                \<not> (wv_text v = [] \<and> availableWidth this < measured_width u this e [])"
    and step: "(let m = text_mesh this e (wv_text v); tSize = getBoundingBoxSize u m
                in if availableWidth this < vx tSize then f u this e i (snip i v)
                   else Some (v, m, tSize)) = Some r"
  show "\<not> (wv_text v = [] \<and> availableWidth this < measured_width u this e [])"
  proof (cases "availableWidth this < measured_width u this e (wv_text v)")
    case True
    then have "f u this e i (snip i v) = Some r"
      using step by (simp add: measured_width_def Let_def)
    from IH[OF this] show ?thesis by (auto simp: snip_text)
  next
    case False
    then show ?thesis by auto
  qed
qed

lemma wrap_loop_result:
  "wrap_loop u this e i v = Some (v', m, sz) \<Longrightarrow>
   \<exists>n\<le>length (wv_text v).
      v' = (snip i ^^ n) v \<and> m = text_mesh this e (wv_text v') \<and> sz = getBoundingBoxSize u m
      \<and> measured_width u this e (wv_text v') \<le> availableWidth this
      \<and> (\<forall>k<n. availableWidth this < measured_width u this e (wv_text ((snip i ^^ k) v)))"
proof (induction "length (wv_text v)" arbitrary: v rule: less_induct)
  case less
  show ?case
  proof (cases "availableWidth this < measured_width u this e (wv_text v)")
    case False
    then have "wrap_loop u this e i v =
       Some (v, text_mesh this e (wv_text v), getBoundingBoxSize u (text_mesh this e (wv_text v)))"
      by (intro wrap_loop_fits) simp
    with less.prems False show ?thesis
      by (intro exI[of _ 0]) auto
  next
    case True
    have ne: "wv_text v \<noteq> []"
      using wrap_loop_not_stuck[OF less.prems] True by auto
    have "wrap_loop u this e i (snip i v) = Some (v', m, sz)"
      using less.prems wrap_loop_over[OF True] by simp
    moreover have "length (wv_text (snip i v)) < length (wv_text v)"
      using ne by (simp add: snip_text)
    ultimately obtain n where n: "n \<le> length (wv_text (snip i v))"
      "v' = (snip i ^^ n) (snip i v)" "m = text_mesh this e (wv_text v')"
      "sz = getBoundingBoxSize u m"
      "measured_width u this e (wv_text v') \<le> availableWidth this"
      "\<forall>k<n. availableWidth this < measured_width u this e (wv_text ((snip i ^^ k) (snip i v)))"
      using less.hyps by blast
    have "\<forall>k<Suc n. availableWidth this < measured_width u this e (wv_text ((snip i ^^ k) v))"
    proof (intro allI impI)
      fix k assume "k < Suc n"
      then show "availableWidth this < measured_width u this e (wv_text ((snip i ^^ k) v))"
        using True n(6) by (cases k) (auto simp: funpow_swap1)
    qed
    moreover have "Suc n \<le> length (wv_text v)"
    proof -
      have "length (wv_text (snip i v)) = length (wv_text v) - 1" by (simp add: snip_text)
      moreover have "0 < length (wv_text v)" using ne by simp
      ultimately show ?thesis using n(1) by arith
    qed
    ultimately show ?thesis
      using n by (intro exI[of _ "Suc n"]) (simp add: funpow_swap1)
  qed
qed

lemma wrap_loop_total:
  assumes empty_fits: "measured_width u this e [] \<le> availableWidth this"
  shows "\<exists>r. wrap_loop u this e i v = Some r"
proof (induction "length (wv_text v)" arbitrary: v rule: less_induct)
  case less
  show ?case
  proof (cases "availableWidth this < measured_width u this e (wv_text v)")
    case False
    then have "measured_width u this e (wv_text v) \<le> availableWidth this" by simp
    from wrap_loop_fits[OF this] show ?thesis by blast
  next
    case True
    then have "wv_text v \<noteq> []" using empty_fits by auto
    then have "length (wv_text (snip i v)) < length (wv_text v)"
      by (simp add: snip_text)
    from less.hyps[OF this] show ?thesis
      using wrap_loop_over[OF True] by simp
  qed
qed

text \<open>The variables after n characters have moved to the new line.\<close>

lemma snip_iterate:
  assumes "i < length ls" "0 < n" "n \<le> length t"
  shows "(snip i ^^ n) \<lparr>wv_text = t, wv_textLines = ls, wv_numLines = nl, wv_newLineCreated = False\<rparr>
         = \<lparr>wv_text = take (length t - n) t,
            wv_textLines = take (i + 1) ls @ [drop (length t - n) t] @ drop (i + 1) ls,
            wv_numLines = nl + 1, wv_newLineCreated = True\<rparr>"
  using assms(2,3)
proof (induction n)
  case 0
  then show ?case by simp
next
  case (Suc n)
  show ?case
  proof (cases "n = 0")
    case True
    have "t \<noteq> []" using Suc.prems by auto
    then have "take (length t - 1) t = butlast t" "drop (length t - 1) t = [last t]"
      by (simp add: butlast_conv_take)
        (metis \<open>t \<noteq> []\<close> append_butlast_last_id append_eq_conv_conj length_butlast)
    then show ?thesis using True \<open>t \<noteq> []\<close>
      by (simp add: snip_alt last_char_def splice_insert_def)
  next
    case False
    then have IH: "(snip i ^^ n) \<lparr>wv_text = t, wv_textLines = ls, wv_numLines = nl, wv_newLineCreated = False\<rparr>
         = \<lparr>wv_text = take (length t - n) t,
            wv_textLines = take (i + 1) ls @ [drop (length t - n) t] @ drop (i + 1) ls,
            wv_numLines = nl + 1, wv_newLineCreated = True\<rparr>"
      using Suc by simp
    have len: "length (take (i + 1) ls) = i + 1" using assms(1) by simp
    have k: "length t - Suc n < length t" "Suc (length t - Suc n) = length t - n"
      using Suc.prems False by auto
    have ne: "take (length t - n) t \<noteq> []" using Suc.prems by auto
    have l: "last (take (length t - n) t) = t ! (length t - Suc n)"
      using ne Suc.prems False by (auto simp: last_conv_nth min_def)
    have d: "t ! (length t - Suc n) # drop (length t - n) t = drop (length t - Suc n) t"
      using Cons_nth_drop_Suc[OF k(1)] k(2) by simp
    have b: "butlast (take (length t - n) t) = take (length t - Suc n) t"
      by (simp add: butlast_take)
    have "(snip i ^^ Suc n) \<lparr>wv_text = t, wv_textLines = ls, wv_numLines = nl, wv_newLineCreated = False\<rparr>
          = snip i \<lparr>wv_text = take (length t - n) t,
              wv_textLines = take (i + 1) ls @ [drop (length t - n) t] @ drop (i + 1) ls,
              wv_numLines = nl + 1, wv_newLineCreated = True\<rparr>"
      by (simp only: funpow.simps o_apply IH)
    also have "\<dots> = \<lparr>wv_text = take (length t - Suc n) t,
            wv_textLines = take (i + 1) ls @ [drop (length t - Suc n) t] @ drop (i + 1) ls,
            wv_numLines = nl + 1, wv_newLineCreated = True\<rparr>"
      using ne l d b len assms(1)
      by (simp add: snip_alt last_char_def set_str_def get_str_def
          nth_append list_update_append)
    finally show ?thesis .
  qed
qed


text \<open>
  Claim C3. When the empty text measures no more than the available width, the wrap loop
  of a line ends: it leaves after some n iterations that cut the text, n at most the
  length of the line's text; each of them found the text too wide and took exactly one
  character off it, and the text it leaves with fits.
\<close>

theorem wrap_loop_terminates:
  assumes "measured_width u this e [] \<le> availableWidth this"
  shows "\<exists>n\<le>length (wv_text v). \<exists>m sz.
           wrap_loop u this e i v = Some ((snip i ^^ n) v, m, sz)
           \<and> (\<forall>k<n. availableWidth this < measured_width u this e (wv_text ((snip i ^^ k) v))
                    \<and> length (wv_text ((snip i ^^ Suc k) v)) + 1
                        = length (wv_text ((snip i ^^ k) v)))
           \<and> measured_width u this e (wv_text ((snip i ^^ n) v)) \<le> availableWidth this"
proof -
  obtain v' m sz where r: "wrap_loop u this e i v = Some (v', m, sz)"
    using wrap_loop_total[OF assms, of i v] by (metis prod_cases3)
  from wrap_loop_result[OF r] obtain n where n: "n \<le> length (wv_text v)"
      "v' = (snip i ^^ n) v"
      "measured_width u this e (wv_text v') \<le> availableWidth this"
      "\<forall>k<n. availableWidth this < measured_width u this e (wv_text ((snip i ^^ k) v))"
    by blast
  have "length (wv_text ((snip i ^^ Suc k) v)) + 1 = length (wv_text ((snip i ^^ k) v))"
    if "k < n" for k
  proof -
    have "wv_text ((snip i ^^ k) v) \<noteq> []" using n(4) that assms by fastforce
    from snip_text_length[OF this, of i] show ?thesis by simp
  qed
  with n r show ?thesis by blast
qed


theorem wrap_loop_terminates_witness:
  "measured_width sample_utils (constructor sample_options) 0 []
     \<le> availableWidth (constructor sample_options)
   \<and> (\<exists>n\<le>length ''ab''. \<exists>m sz.
         wrap_loop sample_utils (constructor sample_options) 0 0
           \<lparr>wv_text = ''ab'', wv_textLines = [''ab''], wv_numLines = 1,
            wv_newLineCreated = False\<rparr>
         = Some ((snip 0 ^^ n)
                   \<lparr>wv_text = ''ab'', wv_textLines = [''ab''], wv_numLines = 1,
                    wv_newLineCreated = False\<rparr>, m, sz))"
proof -
  have h: "measured_width sample_utils (constructor sample_options) 0 []
             \<le> availableWidth (constructor sample_options)"
    by (simp add: measured_width_def text_mesh_def Mesh_def sample_utils_def sample_size_def
        vx_def constructor_def sample_options_def sample_base_def Let_def)
  from wrap_loop_terminates[OF h, of "\<lparr>wv_text = ''ab'', wv_textLines = [''ab''],
      wv_numLines = 1, wv_newLineCreated = False\<rparr>" 0]
  show ?thesis using h by fastforce
qed


section \<open>The lines of a label\<close>

lemma text_parts_merge_line:
  "text_parts (merge_line u g m) = text_parts g @ text_parts (geometry m)"
  by (simp add: merge_line_def Let_def updateMatrix_def)

lemma line_top_bottom_wrap:
  assumes "line_top_bottom u this i t e ls nl = Some (ls', nl', m)"
  obtains v m0 sz where
    "wrap_loop u this e i
       \<lparr>wv_text = t, wv_textLines = ls, wv_numLines = nl, wv_newLineCreated = False\<rparr>
     = Some (v, m0, sz)"
    "ls' = (if wv_newLineCreated v
            then set_str (wv_textLines v) (i + 1)
                   (repeat_star e @ get_str (wv_textLines v) (i + 1) @ repeat_star e)
            else wv_textLines v)"
    "nl' = wv_numLines v"
    "geometry m = geometry m0"
  using assms
  by (auto simp: line_top_bottom_def Let_def Option.bind_eq_Some_conv split: prod.splits)

lemma line_top_bottom_fits:
  assumes "line_top_bottom u this i t e ls nl = Some (ls', nl', m)"
  shows "\<exists>t'. geometry m = TextGeometry t' (fonts ! e) (textSize (opt_base this))
                              (textDepth (opt_base this))
              \<and> measured_width u this e t' \<le> availableWidth this"
proof -
  from assms obtain v m0 sz where
    w: "wrap_loop u this e i
       \<lparr>wv_text = t, wv_textLines = ls, wv_numLines = nl, wv_newLineCreated = False\<rparr>
     = Some (v, m0, sz)" and g: "geometry m = geometry m0"
    by (rule line_top_bottom_wrap)
  from wrap_loop_result[OF w] have "m0 = text_mesh this e (wv_text v)"
    "measured_width u this e (wv_text v) \<le> availableWidth this" by auto
  then show ?thesis using g by (auto simp: text_mesh_def Mesh_def)
qed

lemma subtitle_lines_fit:
  assumes "subtitle_lines u this i ls nl g = Some y"
    and "textPlacement (opt_base this) = ''top'' \<or> textPlacement (opt_base this) = ''bottom''
           \<or> textPlacement (opt_base this) = ''center''"
    and "\<forall>x\<in>set (text_parts g). line_fits u this x"
    and "y = Inr (ls', g')"
  shows "\<forall>x\<in>set (text_parts g'). line_fits u this x"
  using assms(2-)
proof (induction rule: subtitle_lines.raw_induct[OF _ assms(1)])
  case (1 f u this i ls nl g y)
  have y: "y = Inr (ls', g')" and gf: "\<forall>x\<in>set (text_parts g). line_fits u this x"
    and tb: "textPlacement (opt_base this) = ''top'' \<or> textPlacement (opt_base this) = ''bottom''
           \<or> textPlacement (opt_base this) = ''center''"
    using "1.prems" by blast+
  show ?case
  proof (cases "i < nl")
    case False
    then have "g' = g" using "1.hyps" y by simp
    then show ?thesis using gf by simp
  next
    case True
    then have il: "i < length ls" using "1.hyps" y by (auto split: if_splits)
    obtain t e where st: "strip_emph (ls ! i) 0 = (t, e)" by (cases "strip_emph (ls ! i) 0")
    have "Option.bind (line_top_bottom u this i t e ls nl)
            (\<lambda>(ls1, nl1, m). f u this (i + 1) ls1 nl1 (merge_line u g m)) = Some y"
      using "1.hyps" True il st tb by simp
    then obtain ls1 nl1 m where l: "line_top_bottom u this i t e ls nl = Some (ls1, nl1, m)"
      and rec: "f u this (i + 1) ls1 nl1 (merge_line u g m) = Some y"
      by (auto simp: Option.bind_eq_Some_conv)
    from line_top_bottom_fits[OF l] have "line_fits u this (geometry m)"
      by (auto simp: line_fits_def measured_width_def text_mesh_def)
    moreover have "text_parts (geometry m) = [geometry m]"
      using line_top_bottom_fits[OF l] by auto
    ultimately have "\<forall>x\<in>set (text_parts (merge_line u g m)). line_fits u this x"
      using gf by (simp add: text_parts_merge_line)
    from "1.IH"[OF rec tb this y] show ?thesis .
  qed
qed


section \<open>Running the label loop on the sample\<close>

lemma subtitle_lines_done:
  "\<not> i < nl \<Longrightarrow> subtitle_lines u this i ls nl g = Some (Inr (ls, g))"
  by (subst subtitle_lines.simps) simp

lemma subtitle_lines_top_bottom:
  "i < nl \<Longrightarrow> i < length ls \<Longrightarrow>
   textPlacement (opt_base this) = ''top'' \<or> textPlacement (opt_base this) = ''bottom''
     \<or> textPlacement (opt_base this) = ''center'' \<Longrightarrow>
   strip_emph (ls ! i) 0 = (t, e) \<Longrightarrow>
   subtitle_lines u this i ls nl g
     = Option.bind (line_top_bottom u this i t e ls nl)
         (\<lambda>(ls1, nl1, m). subtitle_lines u this (i + 1) ls1 nl1 (merge_line u g m))"
  by (subst subtitle_lines.simps) simp

lemma sample_measure:
  "measured_width sample_utils (constructor (sample_text_options msg)) e t = real (length t) * 4"
  by (simp add: measured_width_def text_mesh_def Mesh_def sample_utils_def sample_size_def
      vx_def constructor_def sample_text_options_def sample_options_def sample_base_def Let_def)

lemma sample_available:
  "availableWidth (constructor (sample_text_options msg)) = 6"
  by (simp add: constructor_def sample_text_options_def sample_options_def sample_base_def Let_def)

lemma sample_placement:
  "textPlacement (opt_base (constructor (sample_text_options msg))) = ''bottom''"
  by (simp add: constructor_def sample_text_options_def sample_options_def sample_base_def Let_def)

lemma sample_line_fit:
  "real (length t) * 4 \<le> 6 \<Longrightarrow>
   \<exists>m. line_top_bottom sample_utils (constructor (sample_text_options msg)) i t 0 ls nl
          = Some (ls, nl, m) \<and> text_parts (geometry m) = [TextGeometry t InterSemiBold 4 1]"
  by (simp add: line_top_bottom_def wrap_loop_fits sample_measure sample_available Let_def
        text_mesh_def Mesh_def fonts_def)
     (simp add: constructor_def sample_text_options_def sample_options_def sample_base_def Let_def)

lemma sample_line_ab:
  "i < length ls \<Longrightarrow>
   \<exists>m. line_top_bottom sample_utils (constructor (sample_text_options msg)) i ''ab'' 0 ls nl
          = Some (take (i + 1) ls @ [''b''] @ drop (i + 1) ls, nl + 1, m)
        \<and> text_parts (geometry m) = [TextGeometry ''a'' InterSemiBold 4 1]"
  apply (simp add: line_top_bottom_def wrap_loop_fits wrap_loop_over sample_measure sample_available Let_def
        text_mesh_def Mesh_def fonts_def snip_alt last_char_def splice_insert_def set_str_def get_str_def repeat_star_def nth_append)
  apply (simp add: constructor_def sample_text_options_def sample_options_def sample_base_def Let_def)
  apply (auto simp: list_update_append min_def)
  done

lemma sample_strip: "strip_emph ''ab'' 0 = (''ab'', 0)" "strip_emph ''b'' 0 = (''b'', 0)"
  by (simp_all add: strip_emph_unmarked emph_marked_def)

lemma sample_pass1:
  "\<exists>g. subtitle_lines sample_utils (constructor (sample_text_options msg)) 0 [''ab''] 1 BufferGeometry
         = Some (Inr ([''ab'', ''b''], g))
       \<and> text_parts g = [TextGeometry ''a'' InterSemiBold 4 1, TextGeometry ''b'' InterSemiBold 4 1]"
proof -
  let ?T = "constructor (sample_text_options msg)"
  obtain m0 where m0: "line_top_bottom sample_utils ?T 0 ''ab'' 0 [''ab''] 1
          = Some ([''ab'', ''b''], 2, m0)"
      "text_parts (geometry m0) = [TextGeometry ''a'' InterSemiBold 4 1]"
    using sample_line_ab[of 0 "[''ab'']" msg 1] by auto
  obtain m1 where m1: "line_top_bottom sample_utils ?T (Suc 0) ''b'' 0 [''ab'', ''b''] 2
          = Some ([''ab'', ''b''], 2, m1)"
      "text_parts (geometry m1) = [TextGeometry ''b'' InterSemiBold 4 1]"
    using sample_line_fit[of "''b''" msg "Suc 0" "[''ab'', ''b'']" 2] by auto
  let ?g1 = "merge_line sample_utils BufferGeometry m0"
  let ?g2 = "merge_line sample_utils ?g1 m1"
  have "subtitle_lines sample_utils ?T 0 [''ab''] 1 BufferGeometry
          = subtitle_lines sample_utils ?T (Suc 0) [''ab'', ''b''] 2 ?g1"
    using m0(1)
    by (subst subtitle_lines_top_bottom[where t = "''ab''" and e = 0])
       (simp_all add: sample_placement sample_strip)
  also have "\<dots> = subtitle_lines sample_utils ?T (Suc (Suc 0)) [''ab'', ''b''] 2 ?g2"
    using m1(1)
    by (subst subtitle_lines_top_bottom[where t = "''b''" and e = 0])
       (simp_all add: sample_placement sample_strip)
  also have "\<dots> = Some (Inr ([''ab'', ''b''], ?g2))"
    by (simp add: subtitle_lines_done)
  finally show ?thesis
    using m0(2) m1(2) by (simp add: text_parts_merge_line)
qed

lemma sample_pass2:
  "\<exists>g. subtitle_lines sample_utils (constructor (sample_text_options msg)) 0 [''ab'', ''b''] 2
           BufferGeometry
         = Some (Inr ([''ab'', ''b'', ''b''], g))"
proof -
  let ?T = "constructor (sample_text_options msg)"
  obtain m0 where m0: "line_top_bottom sample_utils ?T 0 ''ab'' 0 [''ab'', ''b''] 2
          = Some ([''ab'', ''b'', ''b''], 3, m0)"
    using sample_line_ab[of 0 "[''ab'', ''b'']" msg 2] by auto
  obtain m1 where m1: "line_top_bottom sample_utils ?T (Suc 0) ''b'' 0 [''ab'', ''b'', ''b''] 3
          = Some ([''ab'', ''b'', ''b''], 3, m1)"
    using sample_line_fit[of "''b''" msg "Suc 0" "[''ab'', ''b'', ''b'']" 3] by auto
  obtain m2 where m2: "line_top_bottom sample_utils ?T (Suc (Suc 0)) ''b'' 0 [''ab'', ''b'', ''b''] 3
          = Some ([''ab'', ''b'', ''b''], 3, m2)"
    using sample_line_fit[of "''b''" msg "Suc (Suc 0)" "[''ab'', ''b'', ''b'']" 3] by auto
  let ?g1 = "merge_line sample_utils BufferGeometry m0"
  let ?g2 = "merge_line sample_utils ?g1 m1"
  let ?g3 = "merge_line sample_utils ?g2 m2"
  have "subtitle_lines sample_utils ?T 0 [''ab'', ''b''] 2 BufferGeometry
          = subtitle_lines sample_utils ?T (Suc 0) [''ab'', ''b'', ''b''] 3 ?g1"
    using m0(1)
    by (subst subtitle_lines_top_bottom[where t = "''ab''" and e = 0])
       (simp_all add: sample_placement sample_strip)
  also have "\<dots> = subtitle_lines sample_utils ?T (Suc (Suc 0)) [''ab'', ''b'', ''b''] 3 ?g2"
    using m1(1)
    by (subst subtitle_lines_top_bottom[where t = "''b''" and e = 0])
       (simp_all add: sample_placement sample_strip)
  also have "\<dots> = subtitle_lines sample_utils ?T (Suc (Suc (Suc 0))) [''ab'', ''b'', ''b''] 3 ?g3"
    using m2(1)
    by (subst subtitle_lines_top_bottom[where t = "''b''" and e = 0])
       (simp_all add: sample_placement sample_strip)
  also have "\<dots> = Some (Inr ([''ab'', ''b'', ''b''], ?g3))"
    by (simp add: subtitle_lines_done)
  finally show ?thesis by blast
qed

lemma sample_message:
  "textMessage (opt_base (constructor (sample_text_options msg))) = msg"
  by (simp add: constructor_def sample_text_options_def sample_options_def sample_base_def Let_def)

lemma sample_rewrite:
  "(constructor (sample_text_options msg))
     \<lparr>this_options := (this_options (constructor (sample_text_options msg)))
        \<lparr>base := (opt_base (constructor (sample_text_options msg)))\<lparr>textMessage := msg'\<rparr>\<rparr>\<rparr>
   = constructor (sample_text_options msg')"
  by (simp add: constructor_def sample_text_options_def sample_options_def sample_base_def Let_def)





section \<open>The sample's fields\<close>

lemma sample_fields:
  "opt_base (constructor (sample_text_options msg)) = sample_base\<lparr>textMessage := msg\<rparr>"
  "materialBase (constructor (sample_text_options msg)) = MeshBasicMaterial 16777215"
  by (simp_all add: constructor_def sample_text_options_def sample_options_def Let_def)

lemma sample_offset:
  "getTextBaseOffset u (constructor (sample_text_options ''ab'')) = 10"
  by (simp add: getTextBaseOffset_def sample_fields sample_base_def Let_def trim_def is_space_def
      LINE_HEIGHT_def)


section \<open>The label loop ends when every character fits\<close>

lemma getSubtitleMesh_result:
  assumes "getSubtitleMesh u this = Some (Inr (m, this1))"
  obtains ls g where
    "subtitle_lines u this 0 (split_nl (trim (textMessage (opt_base this))))
       (length (split_nl (trim (textMessage (opt_base this))))) BufferGeometry
     = Some (Inr (ls, g))"
    "m = Mesh g (materialDetail this)"
    "this1 = this\<lparr>this_options := (this_options this)
                  \<lparr>base := (opt_base this)\<lparr>textMessage := join_nl ls\<rparr>\<rparr>\<rparr>"
proof -
  let ?ls = "split_nl (trim (textMessage (opt_base this)))"
  from assms obtain y where
    r: "subtitle_lines u this 0 ?ls (length ?ls) BufferGeometry = Some y"
    and y: "(case y of Inl e \<Rightarrow> Some (Inl e)
             | Inr (textLines', textGeometry) \<Rightarrow>
                 Some (Inr (Mesh textGeometry (materialDetail this),
                            this\<lparr>this_options := (this_options this)
                                  \<lparr>base := (opt_base this)
                                     \<lparr>textMessage := join_nl textLines'\<rparr>\<rparr>\<rparr>)))
            = Some (Inr (m, this1))"
    unfolding getSubtitleMesh_def Let_def by (auto simp: Option.bind_eq_Some_conv)
  from y obtain ls g where "y = Inr (ls, g)" "m = Mesh g (materialDetail this)"
    "this1 = this\<lparr>this_options := (this_options this)
                  \<lparr>base := (opt_base this)\<lparr>textMessage := join_nl ls\<rparr>\<rparr>\<rparr>"
    by (cases y) auto
  with r show ?thesis by (intro that[of ls g]) simp_all
qed

lemma snip_funpow_text:
  "wv_text ((snip i ^^ k) v) = take (length (wv_text v) - k) (wv_text v)"
proof (induction k)
  case 0
  then show ?case by simp
next
  case (Suc k)
  have "wv_text ((snip i ^^ Suc k) v) = butlast (wv_text ((snip i ^^ k) v))"
    by (simp add: snip_text)
  also have "\<dots> = take (length (wv_text v) - Suc k) (wv_text v)"
    by (simp add: Suc butlast_take)
  finally show ?case .
qed

lemma strip_emph_length:
  "strip_emph l e0 = (t, e) \<Longrightarrow> t \<noteq> [] \<Longrightarrow> length l = length t + 2 * (e - e0) \<and> e0 \<le> e"
proof (induction l e0 rule: strip_emph.induct)
  case (1 l e0)
  show ?case
  proof (cases "emph_marked l")
    case False
    then show ?thesis using "1.prems" by (simp add: strip_emph_unmarked)
  next
    case True
    let ?l' = "substr l 1 (int (length l) - 2)"
    have len: "length ?l' = length l - 2" by (simp add: substr_def nat_diff_distrib')
    show ?thesis
    proof (cases "e0 + 1 = 3")
      case e3: True
      then have r: "t = ?l'" "e = 3"
        using "1.prems"(1) True by (subst (asm) strip_emph.simps; simp add: Let_def)+
      then have "2 \<le> length l" using "1.prems"(2) len by (cases "length l - 2") auto
      then show ?thesis using r len e3 by simp
    next
      case False
      then have rec: "strip_emph ?l' (e0 + 1) = (t, e)"
        using "1.prems"(1) True by (subst (asm) strip_emph.simps) (simp add: Let_def)
      from "1.IH"[OF True refl refl _ rec "1.prems"(2)] False
      have ih: "length ?l' = length t + 2 * (e - (e0 + 1))" "e0 + 1 \<le> e" by auto
      then have "0 < length ?l'" using "1.prems"(2) by simp
      then have "2 \<le> length l" using len by simp
      then show ?thesis using ih len by simp
    qed
  qed
qed

lemma line_top_bottom_shape:
  assumes l: "line_top_bottom u this i t e ls nl = Some (ls', nl', m)"
    and i: "i < length ls"
  shows "\<exists>n\<le>length t.
           (\<forall>k<n. availableWidth this < measured_width u this e (take (length t - k) t))
           \<and> (n = 0 \<longrightarrow> ls' = ls \<and> nl' = nl)
           \<and> (0 < n \<longrightarrow>
                 ls' = take (i + 1) ls
                         @ [repeat_star e @ drop (length t - n) t @ repeat_star e]
                         @ drop (i + 1) ls
                 \<and> nl' = nl + 1)"
proof -
  let ?v0 = "\<lparr>wv_text = t, wv_textLines = ls, wv_numLines = nl, wv_newLineCreated = False\<rparr>"
  from l obtain v m0 sz where
    w: "wrap_loop u this e i ?v0 = Some (v, m0, sz)"
    and ls': "ls' = (if wv_newLineCreated v
            then set_str (wv_textLines v) (i + 1)
                   (repeat_star e @ get_str (wv_textLines v) (i + 1) @ repeat_star e)
            else wv_textLines v)"
    and nl': "nl' = wv_numLines v"
    by (rule line_top_bottom_wrap)
  from wrap_loop_result[OF w] obtain n where n: "n \<le> length t" "v = (snip i ^^ n) ?v0"
    "\<forall>k<n. availableWidth this < measured_width u this e (wv_text ((snip i ^^ k) ?v0))"
    by auto
  have over: "\<forall>k<n. availableWidth this < measured_width u this e (take (length t - k) t)"
    using n(3) by (simp add: snip_funpow_text)
  have zero: "n = 0 \<longrightarrow> ls' = ls \<and> nl' = nl"
    using ls' nl' n(2) by simp
  have pos: "0 < n \<longrightarrow>
                 ls' = take (i + 1) ls
                         @ [repeat_star e @ drop (length t - n) t @ repeat_star e]
                         @ drop (i + 1) ls
                 \<and> nl' = nl + 1"
  proof
    assume "0 < n"
    then have v: "v = \<lparr>wv_text = take (length t - n) t,
            wv_textLines = take (i + 1) ls @ [drop (length t - n) t] @ drop (i + 1) ls,
            wv_numLines = nl + 1, wv_newLineCreated = True\<rparr>"
      using snip_iterate[OF i _ n(1), of nl] n(2) by simp
    have len: "length (take (i + 1) ls) = i + 1" using i by simp
    show "ls' = take (i + 1) ls
                         @ [repeat_star e @ drop (length t - n) t @ repeat_star e]
                         @ drop (i + 1) ls
                 \<and> nl' = nl + 1"
      using ls' nl' v len i by (simp add: set_str_def get_str_def nth_append list_update_append)
  qed
  from n(1) over zero pos show ?thesis by blast
qed

lemma line_top_bottom_total:
  assumes "measured_width u this e [] \<le> availableWidth this"
  shows "\<exists>r. line_top_bottom u this i t e ls nl = Some r"
proof -
  obtain r where "wrap_loop u this e i
          \<lparr>wv_text = t, wv_textLines = ls, wv_numLines = nl, wv_newLineCreated = False\<rparr> = Some r"
    using wrap_loop_total[OF assms] by blast
  then show ?thesis
    by (cases r) (simp add: line_top_bottom_def Let_def)
qed

lemma subtitle_lines_total:
  assumes tb: "textPlacement (opt_base this) = ''top'' \<or> textPlacement (opt_base this) = ''bottom''
           \<or> textPlacement (opt_base this) = ''center''"
    and empty: "\<forall>e\<le>3. measured_width u this e [] \<le> availableWidth this"
    and single: "\<forall>e\<le>3. \<forall>c. measured_width u this e [c] \<le> availableWidth this"
  shows "\<exists>ls' g'. subtitle_lines u this i ls (length ls) g = Some (Inr (ls', g'))"
proof (induction "rest_size i ls" arbitrary: i ls g rule: less_induct)
  case less
  show ?case
  proof (cases "i < length ls")
    case False
    then show ?thesis by (simp add: subtitle_lines_done)
  next
    case True
    obtain t e where st: "strip_emph (ls ! i) 0 = (t, e)" by (cases "strip_emph (ls ! i) 0")
    have e3: "e \<le> 3" using strip_emph_level_le[of 0 "ls ! i"] st by simp
    obtain ls1 nl1 m where l: "line_top_bottom u this i t e ls (length ls) = Some (ls1, nl1, m)"
      using line_top_bottom_total[of u this e i t ls "length ls"] empty e3
      by (metis prod_cases3)
    have unfold: "subtitle_lines u this i ls (length ls) g
                    = subtitle_lines u this (i + 1) ls1 nl1 (merge_line u g m)"
      using subtitle_lines_top_bottom[OF True True tb st, of u g] l by simp
    from line_top_bottom_shape[OF l True] obtain n where n: "n \<le> length t"
      "\<forall>k<n. availableWidth this < measured_width u this e (take (length t - k) t)"
      "n = 0 \<longrightarrow> ls1 = ls \<and> nl1 = length ls"
      "0 < n \<longrightarrow> ls1 = take (i + 1) ls
                         @ [repeat_star e @ drop (length t - n) t @ repeat_star e]
                         @ drop (i + 1) ls
                 \<and> nl1 = length ls + 1"
      by blast
    have split: "drop i ls = ls ! i # drop (i + 1) ls"
      using True by (simp add: Cons_nth_drop_Suc)
    have "nl1 = length ls1 \<and> rest_size (i + 1) ls1 < rest_size i ls"
    proof (cases "n = 0")
      case True
      then show ?thesis using n(3) split by (simp add: rest_size_def)
    next
      case False
      then have n0: "0 < n" by simp
      have "n < length t"
      proof (rule ccontr)
        assume "\<not> n < length t"
        then have "n = length t" using n(1) by simp
        then have "length t - 1 < n" "t \<noteq> []" using n0 by auto
        then have "availableWidth this < measured_width u this e (take (length t - (length t - 1)) t)"
          using n(2) by blast
        moreover have "take (length t - (length t - 1)) t = [hd t]"
          using \<open>t \<noteq> []\<close> by (cases t) auto
        ultimately show False using single e3 by (auto simp: not_less[symmetric])
      qed
      then have tne: "t \<noteq> []" by auto
      from strip_emph_length[OF st tne] have len: "length (ls ! i) = length t + 2 * e" by simp
      have ls1: "ls1 = take (i + 1) ls
                         @ [repeat_star e @ drop (length t - n) t @ repeat_star e]
                         @ drop (i + 1) ls" "nl1 = length ls + 1"
        using n(4) n0 by auto
      have d: "drop (i + 1) ls1 = (repeat_star e @ drop (length t - n) t @ repeat_star e)
                                    # drop (i + 1) ls"
        using True by (simp add: ls1)
      have "rest_size (i + 1) ls1 < rest_size i ls"
        using \<open>n < length t\<close> len unfolding rest_size_def d split
        by (simp add: repeat_star_def)
      moreover have "nl1 = length ls1" using ls1 True by simp
      ultimately show ?thesis by simp
    qed
    then have "nl1 = length ls1" "rest_size (i + 1) ls1 < rest_size i ls" by auto
    from less.hyps[OF this(2), of "merge_line u g m"] this(1) unfold
    show ?thesis by simp
  qed
qed


lemma getSubtitleMesh_returns:
  assumes tb: "textPlacement (opt_base this) = ''top'' \<or> textPlacement (opt_base this) = ''bottom''
           \<or> textPlacement (opt_base this) = ''center''"
    and empty: "\<forall>e\<le>3. measured_width u this e [] \<le> availableWidth this"
    and single: "\<forall>e\<le>3. \<forall>c. measured_width u this e [c] \<le> availableWidth this"
  shows "\<exists>m this'. getSubtitleMesh u this = Some (Inr (m, this'))"
proof -
  let ?ls = "split_nl (trim (textMessage (opt_base this)))"
  obtain ls' g' where "subtitle_lines u this 0 ?ls (length ?ls) BufferGeometry = Some (Inr (ls', g'))"
    using subtitle_lines_total[OF tb empty single] by blast
  then show ?thesis by (simp add: getSubtitleMesh_def Let_def)
qed

section \<open>The claims about the label\<close>

text \<open>
  Claim C2. Under the placement top, bottom or center, whenever
  \<^verbatim>\<open>getSubtitleMesh\<close> returns, every line it has put into the label measures, in
  the font of its emphasis level and after its markers are stripped, at most the
  available width that the constructor computed: the width of the base less twice the
  margin of the code, and less twice the border width when there is a border. (The bound
  needs no assumption on the sign of the available width.) And it does return when the
  empty text and every text of one character fit that width at each of the four levels.
\<close>

theorem wrapped_lines_fit:
  assumes tb: "textPlacement (base opts) = ''top'' \<or> textPlacement (base opts) = ''bottom''
           \<or> textPlacement (base opts) = ''center''"
  shows "(\<forall>m this'. getSubtitleMesh u (constructor opts) = Some (Inr (m, this')) \<longrightarrow>
            (\<forall>g\<in>set (text_parts (geometry m)).
               vx (getBoundingBoxSize u (Mesh g (materialDetail (constructor opts))))
                 \<le> width (base opts) - 2 * margin (code opts)
                     - (if hasBorder (base opts) then 2 * borderWidth (base opts) else 0)))
         \<and> ((\<forall>e\<le>3. measured_width u (constructor opts) e []
                       \<le> width (base opts) - 2 * margin (code opts)
                           - (if hasBorder (base opts) then 2 * borderWidth (base opts) else 0))
              \<and> (\<forall>e\<le>3. \<forall>c. measured_width u (constructor opts) e [c]
                       \<le> width (base opts) - 2 * margin (code opts)
                           - (if hasBorder (base opts) then 2 * borderWidth (base opts) else 0))
              \<longrightarrow> (\<exists>m this'. getSubtitleMesh u (constructor opts) = Some (Inr (m, this'))))"
proof -
  let ?T = "constructor opts"
  have aw: "availableWidth ?T = width (base opts) - 2 * margin (code opts)
                 - (if hasBorder (base opts) then 2 * borderWidth (base opts) else 0)"
    by (simp add: constructor_def Let_def)
  have tb': "textPlacement (opt_base ?T) = ''top'' \<or> textPlacement (opt_base ?T) = ''bottom''
           \<or> textPlacement (opt_base ?T) = ''center''"
    using tb by (simp add: constructor_def Let_def)
  have fit: "\<forall>g\<in>set (text_parts (geometry m)).
               vx (getBoundingBoxSize u (Mesh g (materialDetail ?T))) \<le> availableWidth ?T"
    if r: "getSubtitleMesh u ?T = Some (Inr (m, this'))" for m this'
  proof -
    from r obtain ls' g' where
      s: "subtitle_lines u ?T 0 (split_nl (trim (textMessage (opt_base ?T))))
            (length (split_nl (trim (textMessage (opt_base ?T))))) BufferGeometry
          = Some (Inr (ls', g'))"
      and m: "m = Mesh g' (materialDetail ?T)"
      by (rule getSubtitleMesh_result)
    have "\<forall>x\<in>set (text_parts g'). line_fits u ?T x"
      by (rule subtitle_lines_fit[OF s tb' _ refl]) simp
    then show ?thesis using m by (simp add: line_fits_def Mesh_def)
  qed
  have ret: "\<exists>m this'. getSubtitleMesh u ?T = Some (Inr (m, this'))"
    if "\<forall>e\<le>3. measured_width u ?T e [] \<le> availableWidth ?T"
      and "\<forall>e\<le>3. \<forall>c. measured_width u ?T e [c] \<le> availableWidth ?T"
    using getSubtitleMesh_returns[OF tb' that] .
  from fit ret show ?thesis unfolding aw by blast
qed


theorem wrapped_lines_fit_witness:
  "textPlacement (base (sample_text_options ''ab'')) = ''bottom''
   \<and> (\<forall>e. measured_width sample_utils (constructor (sample_text_options ''ab'')) e [] \<le> 6)
   \<and> (\<forall>e c. measured_width sample_utils (constructor (sample_text_options ''ab'')) e [c] \<le> 6)
   \<and> (\<exists>m this'.
         getSubtitleMesh sample_utils (constructor (sample_text_options ''ab''))
           = Some (Inr (m, this'))
         \<and> (\<forall>g\<in>set (text_parts (geometry m)).
               vx (getBoundingBoxSize sample_utils
                     (Mesh g (materialDetail (constructor (sample_text_options ''ab'')))))
                 \<le> 6))"
proof -
  let ?opts = "sample_text_options ''ab''"
  have p: "textPlacement (base ?opts) = ''bottom''"
    by (simp add: sample_text_options_def sample_options_def sample_base_def)
  have w: "width (base ?opts) - 2 * margin (code ?opts)
             - (if hasBorder (base ?opts) then 2 * borderWidth (base ?opts) else 0) = 6"
    by (simp add: sample_text_options_def sample_options_def sample_base_def)
  have e: "\<forall>e. measured_width sample_utils (constructor ?opts) e [] \<le> 6"
    and c: "\<forall>e c. measured_width sample_utils (constructor ?opts) e [c] \<le> 6"
    by (simp_all add: sample_measure)
  have tb: "textPlacement (base ?opts) = ''top'' \<or> textPlacement (base ?opts) = ''bottom''
              \<or> textPlacement (base ?opts) = ''center''"
    using p by simp
  from wrapped_lines_fit[OF tb, of sample_utils, unfolded w] e c
  have fits: "\<forall>m this'. getSubtitleMesh sample_utils (constructor ?opts) = Some (Inr (m, this')) \<longrightarrow>
            (\<forall>g\<in>set (text_parts (geometry m)).
               vx (getBoundingBoxSize sample_utils (Mesh g (materialDetail (constructor ?opts))))
                 \<le> 6)"
    and returns: "\<exists>m this'. getSubtitleMesh sample_utils (constructor ?opts) = Some (Inr (m, this'))"
    by blast+
  from returns obtain m this' where
    r: "getSubtitleMesh sample_utils (constructor ?opts) = Some (Inr (m, this'))" by blast
  with fits have "\<forall>g\<in>set (text_parts (geometry m)).
               vx (getBoundingBoxSize sample_utils (Mesh g (materialDetail (constructor ?opts))))
                 \<le> 6" by blast
  with r p e c show ?thesis by blast
qed







text \<open>
  Claim C4, which the code does not meet. Only the local \<^verbatim>\<open>text\<close> is cut in the
  wrap loop; \<^verbatim>\<open>textLines[i]\<close> keeps the whole line, so the message written back
  holds the spilled characters twice, and the next call splits the same line again. On
  the sample (one character fits the width, two do not) the message \<^verbatim>\<open>ab\<close> becomes
  \<^verbatim>\<open>ab\nb\<close> in the first call and \<^verbatim>\<open>ab\nb\nb\<close> in the second.
\<close>

theorem wrapping_not_idempotent:
  "\<exists>m1 m2.
     getSubtitleMesh sample_utils (constructor (sample_text_options ''ab''))
       = Some (Inr (m1, constructor (sample_text_options ''ab\<newline>b'')))
     \<and> getSubtitleMesh sample_utils (constructor (sample_text_options ''ab\<newline>b''))
       = Some (Inr (m2, constructor (sample_text_options ''ab\<newline>b\<newline>b'')))
     \<and> textMessage (opt_base (constructor (sample_text_options ''ab\<newline>b\<newline>b'')))
         \<noteq> textMessage (opt_base (constructor (sample_text_options ''ab\<newline>b'')))"
proof -
  obtain g1 where g1: "subtitle_lines sample_utils (constructor (sample_text_options ''ab'')) 0
      [''ab''] 1 BufferGeometry = Some (Inr ([''ab'', ''b''], g1))"
    using sample_pass1[of "''ab''"] by blast
  obtain g2 where g2: "subtitle_lines sample_utils (constructor (sample_text_options ''ab\<newline>b'')) 0
      [''ab'', ''b''] 2 BufferGeometry = Some (Inr ([''ab'', ''b'', ''b''], g2))"
    using sample_pass2[of "''ab\<newline>b''"] by blast
  have t1: "split_nl (trim ''ab'') = [''ab'']"
    by (simp add: trim_def is_space_def)
  have t2: "split_nl (trim ''ab\<newline>b'') = [''ab'', ''b'']"
    by (simp add: trim_def is_space_def)
  have "getSubtitleMesh sample_utils (constructor (sample_text_options ''ab''))
       = Some (Inr (Mesh g1 (materialDetail (constructor (sample_text_options ''ab''))),
                    constructor (sample_text_options ''ab\<newline>b'')))"
    using g1 by (simp add: getSubtitleMesh_def sample_message t1 sample_rewrite)
  moreover have "getSubtitleMesh sample_utils (constructor (sample_text_options ''ab\<newline>b''))
       = Some (Inr (Mesh g2 (materialDetail (constructor (sample_text_options ''ab\<newline>b''))),
                    constructor (sample_text_options ''ab\<newline>b\<newline>b'')))"
    using g2 by (simp add: getSubtitleMesh_def sample_message t2 sample_rewrite numeral_2_eq_2)
  ultimately show ?thesis by (simp add: sample_message)
qed



section \<open>The claims about offsets and the plate\<close>

text \<open>
  Claim C9. \<^verbatim>\<open>getTextTopOffset\<close> is twice \<^verbatim>\<open>getTextBaseOffset\<close> less the
  constant 0.1 under the placement top and 0 under every other placement;
  \<^verbatim>\<open>getTextLeftOffset\<close> is twice \<^verbatim>\<open>getTextBaseOffset\<close> under the placement
  left and 0 under every other placement, right, bottom and center among them.
\<close>

theorem text_offsets:
  "getTextTopOffset u this
     = (if textPlacement (opt_base this) = ''top'' then 2 * getTextBaseOffset u this - 1 / 10 else 0)
   \<and> getTextLeftOffset u this
     = (if textPlacement (opt_base this) = ''left'' then 2 * getTextBaseOffset u this else 0)
   \<and> (textPlacement (opt_base this) \<noteq> ''top'' \<longrightarrow> getTextTopOffset u this = 0)
   \<and> (textPlacement (opt_base this) \<noteq> ''left'' \<longrightarrow> getTextLeftOffset u this = 0)"
  by (simp add: getTextTopOffset_def getTextLeftOffset_def)

theorem text_offsets_witness:
  "textPlacement (opt_base (constructor (sample_text_options ''ab''))) \<noteq> ''top''
   \<and> textPlacement (opt_base (constructor (sample_text_options ''ab''))) \<noteq> ''left''
   \<and> getTextTopOffset sample_utils (constructor (sample_text_options ''ab'')) = 0
   \<and> getTextLeftOffset sample_utils (constructor (sample_text_options ''ab'')) = 0
   \<and> getTextTopOffset sample_utils
        ((constructor (sample_text_options ''ab''))
           \<lparr>this_options := sample_options\<lparr>base := sample_base\<lparr>textPlacement := ''top''\<rparr>\<rparr>\<rparr>)
       = 199 / 10"
proof -
  let ?T = "constructor (sample_text_options ''ab'')"
  let ?T' = "?T\<lparr>this_options := sample_options\<lparr>base := sample_base\<lparr>textPlacement := ''top''\<rparr>\<rparr>\<rparr>"
  have p: "textPlacement (opt_base ?T) \<noteq> ''top''" "textPlacement (opt_base ?T) \<noteq> ''left''"
    by (simp_all add: sample_fields sample_base_def)
  have o: "getTextBaseOffset sample_utils ?T' = 10"
    by (simp add: getTextBaseOffset_def sample_options_def sample_base_def Let_def trim_def
        is_space_def LINE_HEIGHT_def)
  have p': "textPlacement (opt_base ?T') = ''top''"
    by (simp add: sample_options_def sample_base_def)
  from text_offsets[of sample_utils ?T] text_offsets[of sample_utils ?T'] p p' o
  show ?thesis by simp
qed

text \<open>
  Claim C10. With a label placed at the center no extent is reserved for it:
  \<^verbatim>\<open>getTextBaseOffset\<close> is 0 and the plate is the profile of \<^verbatim>\<open>base.height\<close> by
  \<^verbatim>\<open>base.width\<close> around the origin, not moved; and yet the placement takes the branch
  of top and bottom in the label loop, where lines are wrapped.
\<close>

theorem center_reserves_nothing:
  assumes "hasText (opt_base this)" and "textPlacement (opt_base this) = ''center''"
  shows "getTextBaseOffset u this = 0
         \<and> geometry (base_plate_mesh u this)
             = ExtrudeGeometry
                 (Some (RoundedRectShape (- height (opt_base this) / 2) (- width (opt_base this) / 2)
                          (height (opt_base this)) (width (opt_base this)) (getCornerRadius this)))
                 (depth (opt_base this))
         \<and> position (base_plate_mesh u this) = (0, 0, 0)
         \<and> getBaseMesh u this
             = (if hasNfcIndentation (opt_base this)
                then updateMatrix (subtractMesh u (base_plate_mesh u this)
                                     (nfc_hole_mesh this (base_plate_mesh u this)))
                else base_plate_mesh u this)
         \<and> (i < nl \<and> i < length ls \<longrightarrow>
              subtitle_lines u this i ls nl g
                = Option.bind
                    (line_top_bottom u this i (fst (strip_emph (ls ! i) 0))
                       (snd (strip_emph (ls ! i) 0)) ls nl)
                    (\<lambda>(ls1, nl1, m). subtitle_lines u this (i + 1) ls1 nl1 (merge_line u g m)))"
proof -
  have off: "getTextBaseOffset u this = 0"
    using assms by (simp add: getTextBaseOffset_def)
  have "i < nl \<and> i < length ls \<longrightarrow>
              subtitle_lines u this i ls nl g
                = Option.bind
                    (line_top_bottom u this i (fst (strip_emph (ls ! i) 0))
                       (snd (strip_emph (ls ! i) 0)) ls nl)
                    (\<lambda>(ls1, nl1, m). subtitle_lines u this (i + 1) ls1 nl1 (merge_line u g m))"
    using assms(2) subtitle_lines_top_bottom[of i nl ls this "fst (strip_emph (ls ! i) 0)"
        "snd (strip_emph (ls ! i) 0)" u g] by simp
  moreover have "geometry (base_plate_mesh u this)
             = ExtrudeGeometry
                 (Some (RoundedRectShape (- height (opt_base this) / 2) (- width (opt_base this) / 2)
                          (height (opt_base this)) (width (opt_base this)) (getCornerRadius this)))
                 (depth (opt_base this))"
    using assms(2) by (simp add: base_plate_mesh_def off Let_def updateMatrix_def Mesh_def)
  moreover have "position (base_plate_mesh u this) = (0, 0, 0)"
    using assms(2) by (simp add: base_plate_mesh_def off Let_def updateMatrix_def Mesh_def)
  ultimately show ?thesis using off by (simp add: getBaseMesh_def Let_def)
qed

theorem center_reserves_nothing_witness:
  "hasText (opt_base (constructor (sample_options\<lparr>base := sample_base\<lparr>textPlacement := ''center''\<rparr>\<rparr>)))
   \<and> textPlacement (opt_base (constructor (sample_options\<lparr>base := sample_base\<lparr>textPlacement := ''center''\<rparr>\<rparr>)))
       = ''center''
   \<and> getTextBaseOffset sample_utils
        (constructor (sample_options\<lparr>base := sample_base\<lparr>textPlacement := ''center''\<rparr>\<rparr>)) = 0
   \<and> geometry (base_plate_mesh sample_utils
        (constructor (sample_options\<lparr>base := sample_base\<lparr>textPlacement := ''center''\<rparr>\<rparr>)))
       = ExtrudeGeometry (Some (RoundedRectShape (- 20) (- 13 / 2) 40 13 4)) 3"
proof -
  let ?T = "constructor (sample_options\<lparr>base := sample_base\<lparr>textPlacement := ''center''\<rparr>\<rparr>)"
  have h: "hasText (opt_base ?T)" "textPlacement (opt_base ?T) = ''center''"
    by (simp_all add: constructor_def sample_options_def sample_base_def Let_def)
  have v: "height (opt_base ?T) = 40" "width (opt_base ?T) = 13" "depth (opt_base ?T) = 3"
    "getCornerRadius ?T = 4"
    by (simp_all add: constructor_def sample_options_def sample_base_def Let_def getCornerRadius_def)
  from center_reserves_nothing[OF h, of sample_utils] h v show ?thesis by simp
qed


text \<open>
  Claim C7, as amended. With \<^verbatim>\<open>hasNfcIndentation\<close> the base mesh is the plate less
  an indentation solid: a cylinder of diameter \<^verbatim>\<open>nfcIndentationSize\<close> (turned to
  stand along z) for the shape round, otherwise a box of that side, of depth
  \<^verbatim>\<open>nfcIndentationDepth\<close>; it sits at the x position of the plate's mesh (half the
  text offset towards the label under bottom and top placement, when the offset is
  positive, else 0), at y = 0, and at half its depth in z, one unit higher when
  \<^verbatim>\<open>nfcIndentationHidden\<close> is set.
\<close>

theorem nfc_indentation:
  assumes "hasNfcIndentation (opt_base this)"
  shows "getBaseMesh u this
           = updateMatrix (subtractMesh u (base_plate_mesh u this)
                             (nfc_hole_mesh this (base_plate_mesh u this)))
         \<and> geometry (nfc_hole_mesh this (base_plate_mesh u this))
             = (if nfcIndentationShape (opt_base this) = ''round''
                then CylinderGeometry (nfcIndentationSize (opt_base this) / 2)
                       (nfcIndentationSize (opt_base this) / 2)
                       (nfcIndentationDepth (opt_base this)) 32
                else BoxGeometry (nfcIndentationSize (opt_base this))
                       (nfcIndentationSize (opt_base this)) (nfcIndentationDepth (opt_base this)))
         \<and> rotation (nfc_hole_mesh this (base_plate_mesh u this))
             = (if nfcIndentationShape (opt_base this) = ''round'' then (- pi / 2, 0, 0)
                else (0, 0, 0))
         \<and> position (nfc_hole_mesh this (base_plate_mesh u this))
             = (vx (position (base_plate_mesh u this)), 0,
                nfcIndentationDepth (opt_base this) / 2
                  + (if nfcIndentationHidden (opt_base this) then 1 else 0))
         \<and> matrix (nfc_hole_mesh this (base_plate_mesh u this))
             = (position (nfc_hole_mesh this (base_plate_mesh u this)),
                rotation (nfc_hole_mesh this (base_plate_mesh u this)))
         \<and> vx (position (base_plate_mesh u this))
             = (if 0 < getTextBaseOffset u this
                then (if textPlacement (opt_base this) = ''bottom''
                      then getTextBaseOffset u this / 2
                      else if textPlacement (opt_base this) = ''top''
                      then - getTextBaseOffset u this / 2
                      else 0)
                else 0)"
proof -
  have 1: "getBaseMesh u this
           = updateMatrix (subtractMesh u (base_plate_mesh u this)
                             (nfc_hole_mesh this (base_plate_mesh u this)))"
    using assms by (simp add: getBaseMesh_def Let_def)
  have 2: "vx (position (base_plate_mesh u this))
             = (if 0 < getTextBaseOffset u this
                then (if textPlacement (opt_base this) = ''bottom''
                      then getTextBaseOffset u this / 2
                      else if textPlacement (opt_base this) = ''top''
                      then - getTextBaseOffset u this / 2
                      else 0)
                else 0)"
    by (simp add: base_plate_mesh_def Let_def updateMatrix_def Mesh_def set_position_x_def
        set_position_y_def vx_def)
  show ?thesis
    unfolding 1 2[symmetric]
    by (simp add: nfc_hole_mesh_def Let_def updateMatrix_def Mesh_def set_position_x_def
        set_position_z_def set_rotation_x_def vx_def vz_def)
qed


theorem nfc_indentation_witness:
  "hasNfcIndentation (opt_base (constructor (sample_text_options ''ab'')))
   \<and> geometry (nfc_hole_mesh (constructor (sample_text_options ''ab''))
        (base_plate_mesh sample_utils (constructor (sample_text_options ''ab''))))
       = CylinderGeometry (25 / 2) (25 / 2) 1 32
   \<and> position (nfc_hole_mesh (constructor (sample_text_options ''ab''))
        (base_plate_mesh sample_utils (constructor (sample_text_options ''ab''))))
       = (5, 0, 1 / 2)"
proof -
  let ?T = "constructor (sample_text_options ''ab'')"
  have h: "hasNfcIndentation (opt_base ?T)" by (simp add: sample_fields sample_base_def)
  from nfc_indentation[OF h, of sample_utils] h show ?thesis
    by (simp add: sample_offset sample_fields sample_base_def)
qed


text \<open>
  Claim C7 as it was stated fails: under the placement bottom the sample's plate spans
  x from -20 to 30 and is centred at x = 5; the content region spans -20 to 20. The
  indentation is at x = 5, the middle of the moved plate, not at the content's centre.
\<close>

theorem nfc_not_at_content_center:
  "hasNfcIndentation (opt_base (constructor (sample_text_options ''ab'')))
   \<and> geometry (base_plate_mesh sample_utils (constructor (sample_text_options ''ab'')))
       = ExtrudeGeometry (Some (RoundedRectShape (- 25) (- 13 / 2) 50 13 4)) 3
   \<and> position (base_plate_mesh sample_utils (constructor (sample_text_options ''ab''))) = (5, 0, 0)
   \<and> position_xy (nfc_hole_mesh (constructor (sample_text_options ''ab''))
        (base_plate_mesh sample_utils (constructor (sample_text_options ''ab'')))) = (5, 0)
   \<and> position_xy (nfc_hole_mesh (constructor (sample_text_options ''ab''))
        (base_plate_mesh sample_utils (constructor (sample_text_options ''ab''))))
       \<noteq> content_center"
  by (simp add: nfc_hole_mesh_def base_plate_mesh_def sample_offset sample_fields sample_base_def
      getCornerRadius_def Let_def updateMatrix_def Mesh_def set_position_x_def set_position_z_def
      set_rotation_x_def vx_def vy_def vz_def position_xy_def content_center_def)








section \<open>The parts and the combined mesh\<close>











end
